theory Spec2Isabelle
  imports Main "HOL-Library.Stream" "HOL-Library.Log_Nat"
begin

section \<open>Instants, JavaScript numbers and arrays\<close>

text \<open>
  A JavaScript \<open>Date\<close> is modelled by its \<open>getTime()\<close> value: the number of milliseconds
  since the epoch, an integer. The strings of \<open>AvailabilitySlot\<close> and \<open>BookingSlot\<close> are
  read by \<open>parseISO\<close> before any use, so the records below hold the parsed instants.
  The calendar helpers of date-fns are modelled in one fixed reference time base (UTC, no
  daylight saving), where a day is exactly 86400000 ms.

  JavaScript numbers are IEEE doubles. The time value of a valid \<open>Date\<close> is an integer of
  magnitude at most 8640000000000000, below \<open>2^53\<close>, so it is a double; the difference of two
  of them can exceed \<open>2^53\<close> and is then rounded, which \<open>roundDouble\<close> models. For valid dates
  and integer durations the other operations of the source are exact: a product that is
  rounded is too large to matter for the slot count, and the floor of the rounded quotient of
  a double by an even double is the floor of the exact quotient.
\<close>

type_synonym instant = int

definition msPerDay :: int where
  "msPerDay = 1000 * 60 * 60 * 24"

definition startOfDay :: "instant \<Rightarrow> instant" where
  "startOfDay d = d - d mod msPerDay"

definition endOfDay :: "instant \<Rightarrow> instant" where
  "endOfDay d = startOfDay d + (msPerDay - 1)"

definition addMinutes :: "instant \<Rightarrow> int \<Rightarrow> instant" where
  "addMinutes d amount = d + amount * 60000"

definition addDays :: "instant \<Rightarrow> int \<Rightarrow> instant" where
  "addDays d amount = d + amount * msPerDay"

text \<open>
  \<open>isWithinInterval(d, { start, end })\<close> is inclusive at both ends. The source only calls it
  with the start and the end of one day, an interval that is never reversed.
\<close>

definition isWithinInterval :: "instant \<Rightarrow> instant \<Rightarrow> instant \<Rightarrow> bool" where
  "isWithinInterval d istart iend = (istart \<le> d \<and> d \<le> iend)"

text \<open>
  The double nearest to an integer, ties to the even significand: an integer of magnitude at
  most \<open>2^53\<close> is a double; a larger one is rounded to 53 significant bits.
\<close>

definition roundDouble :: "int \<Rightarrow> int" where
  "roundDouble x =
     (if \<bar>x\<bar> \<le> 9007199254740992 then x
      else
        (let a = \<bar>x\<bar>;
             e = nat (bitlen a - 53);
             q = a div 2 ^ e;
             r = a mod 2 ^ e;
             half = 2 ^ (e - 1);
             m = (if r < half \<or> (r = half \<and> even q) then q else q + 1)
         in sgn x * (m * 2 ^ e)))"

text \<open>
  The result of a JavaScript division of two integers followed by \<open>Math.floor\<close>: a
  division by zero gives an infinity or NaN instead of failing.
\<close>

datatype number = Finite int | PosInfinity | NegInfinity | NaN

definition floorDiv :: "int \<Rightarrow> int \<Rightarrow> number" where
  "floorDiv a b =
     (if b = 0 then (if 0 < a then PosInfinity else if a < 0 then NegInfinity else NaN)
      else Finite (a div b))"

definition ceilDiv :: "int \<Rightarrow> int \<Rightarrow> int" where
  "ceilDiv a b = - ((- a) div b)"

datatype error = RangeError

text \<open>
  \<open>Array.from({ length: n }, (_, i) => f(i))\<close>: the length is clamped below at 0 (NaN
  counts as 0) and the array constructor raises RangeError for a length above
  \<open>2^32 - 1\<close>, which is what an infinite length becomes.
\<close>

definition maxArrayLength :: int where
  "maxArrayLength = 4294967295"

fun arrayFrom :: "number \<Rightarrow> (nat \<Rightarrow> 'a) \<Rightarrow> error + 'a list" where
  "arrayFrom (Finite n) f =
     (if maxArrayLength < n then Inl RangeError else Inr (map f [0..<nat n]))"
| "arrayFrom PosInfinity f = Inl RangeError"
| "arrayFrom NegInfinity f = Inr []"
| "arrayFrom NaN f = Inr []"

text \<open>Array methods whose callback may raise: the first exception ends the traversal.\<close>

fun flatMapE :: "('a \<Rightarrow> error + 'b list) \<Rightarrow> 'a list \<Rightarrow> error + 'b list" where
  "flatMapE f [] = Inr []"
| "flatMapE f (x # xs) =
     (case f x of
        Inl e \<Rightarrow> Inl e
      | Inr ys \<Rightarrow> (case flatMapE f xs of Inl e \<Rightarrow> Inl e | Inr zs \<Rightarrow> Inr (ys @ zs)))"

fun someE :: "('a \<Rightarrow> error + bool) \<Rightarrow> 'a list \<Rightarrow> error + bool" where
  "someE f [] = Inr False"
| "someE f (x # xs) =
     (case f x of
        Inl e \<Rightarrow> Inl e
      | Inr b \<Rightarrow> (if b then Inr True else someE f xs))"

fun filterE :: "('a \<Rightarrow> error + bool) \<Rightarrow> 'a list \<Rightarrow> error + 'a list" where
  "filterE f [] = Inr []"
| "filterE f (x # xs) =
     (case f x of
        Inl e \<Rightarrow> Inl e
      | Inr b \<Rightarrow>
          (case filterE f xs of
             Inl e \<Rightarrow> Inl e
           | Inr ys \<Rightarrow> Inr (if b then x # ys else ys)))"

text \<open>
  The wall clock is the only ambient state the code reads. It is a stream of readings:
  \<open>new Date()\<close> takes the next one.
\<close>

type_synonym clock = "instant stream"

definition newDate :: "clock \<Rightarrow> instant \<times> clock" where
  "newDate clk = (shd clk, stl clk)"

text \<open>
  One instance of date-fns' \<open>format(d, "yyyy-MM-dd")\<close> in the reference time base, for
  years 1 to 9999. The aggregator below takes the formatter as a parameter.
\<close>

definition digit :: "int \<Rightarrow> char" where
  "digit n = ''0123456789'' ! nat n"

definition pad2 :: "int \<Rightarrow> string" where
  "pad2 n = [digit (n div 10), digit (n mod 10)]"

definition pad4 :: "int \<Rightarrow> string" where
  "pad4 n = [digit (n div 1000), digit (n div 100 mod 10), digit (n div 10 mod 10), digit (n mod 10)]"

definition formatYMD :: "instant \<Rightarrow> string" where
  "formatYMD t =
     (let z = t div msPerDay + 719468;
          era = z div 146097;
          doe = z mod 146097;
          yoe = (doe - doe div 1460 + doe div 36524 - doe div 146096) div 365;
          doy = doe - (365 * yoe + yoe div 4 - yoe div 100);
          mp = (5 * doy + 2) div 153;
          d = doy - (153 * mp + 2) div 5 + 1;
          m = (if mp < 10 then mp + 3 else mp - 9);
          y = yoe + era * 400 + (if m \<le> 2 then 1 else 0)
      in pad4 y @ ''-'' @ pad2 m @ ''-'' @ pad2 d)"

section \<open>Types of \<open>src/lib/availability.ts\<close>\<close>

record AvailabilitySlot =
  key :: string
  startDateTime :: instant
  endDateTime :: instant

record BookingSlot =
  id :: string
  startTime :: instant
  endTime :: instant

record BusyTime =
  busy_start :: instant
  busy_end :: instant

text \<open>The anonymous result type \<open>{ start: Date; end: Date }\<close> of \<open>computeAvailableSlots\<close>.\<close>

record FreeSlot =
  slot_start :: instant
  slot_end :: instant

section \<open>Core computation functions\<close>

text \<open>
  The callback of \<open>availability.filter\<close>, written twice in the source (lines 74-83 and
  127-136) with the same body.
\<close>

definition intersectsDay :: "instant \<Rightarrow> instant \<Rightarrow> AvailabilitySlot \<Rightarrow> bool" where
  "intersectsDay dayStart dayEnd slot =
     (let slotStart = startDateTime slot;
          slotEnd = endDateTime slot
      in isWithinInterval slotStart dayStart dayEnd \<or>
         isWithinInterval slotEnd dayStart dayEnd \<or>
         (slotStart \<le> dayStart \<and> slotEnd \<ge> dayEnd))"

text \<open>
  The conflict callback, written twice in the source (lines 152-168 and 197-213) with the
  same body: true when the candidate is blocked by no booking and no busy time.
\<close>

definition slotIsFree :: "BookingSlot list \<Rightarrow> BusyTime list \<Rightarrow> int \<Rightarrow> instant \<Rightarrow> bool" where
  "slotIsFree bookings busyTimes slotDurationMinutes currentStart =
     (let currentEnd = addMinutes currentStart slotDurationMinutes;
          hasBookingConflict =
            list_ex (\<lambda>booking.
              let bookingStart = startTime booking;
                  bookingEnd = endTime booking
              in currentStart < bookingEnd \<and> currentEnd > bookingStart) bookings;
          hasBusyConflict =
            list_ex (\<lambda>busy. currentStart < busy_end busy \<and> currentEnd > busy_start busy) busyTimes
      in \<not> hasBookingConflict \<and> \<not> hasBusyConflict)"

definition generateSlotStarts :: "instant \<Rightarrow> instant \<Rightarrow> int \<Rightarrow> error + instant list" where
  "generateSlotStarts rangeStart rangeEnd durationMinutes =
     (let slotCount = floorDiv (roundDouble (rangeEnd - rangeStart)) (durationMinutes * 60 * 1000)
      in arrayFrom slotCount (\<lambda>i. addMinutes rangeStart (int i * durationMinutes)))"

text \<open>The callback of \<open>availabilityForDate.flatMap\<close> in \<open>computeAvailableSlots\<close> (lines 138-173).\<close>

definition slotsOfWindow ::
  "BookingSlot list \<Rightarrow> BusyTime list \<Rightarrow> int \<Rightarrow> instant \<Rightarrow> instant \<Rightarrow> instant \<Rightarrow>
   AvailabilitySlot \<Rightarrow> error + FreeSlot list" where
  "slotsOfWindow bookings busyTimes slotDurationMinutes dayStart dayEnd now availSlot =
     (let availStart = startDateTime availSlot;
          availEnd = endDateTime availSlot;
          slotStart = (if availStart < dayStart then dayStart else availStart);
          slotEnd = (if availEnd > dayEnd then dayEnd else availEnd)
      in case generateSlotStarts slotStart slotEnd slotDurationMinutes of
           Inl e \<Rightarrow> Inl e
         | Inr slotStarts \<Rightarrow>
             Inr (map (\<lambda>currentStart.
                         \<lparr>slot_start = currentStart,
                          slot_end = addMinutes currentStart slotDurationMinutes\<rparr>)
                    (filter (slotIsFree bookings busyTimes slotDurationMinutes)
                       (filter (\<lambda>currentStart. currentStart \<ge> now) slotStarts))))"

definition computeAvailableSlots ::
  "AvailabilitySlot list \<Rightarrow> BookingSlot list \<Rightarrow> instant \<Rightarrow> int \<Rightarrow> BusyTime list \<Rightarrow>
   clock \<Rightarrow> (error + FreeSlot list) \<times> clock" where
  "computeAvailableSlots availability bookings date slotDurationMinutes busyTimes clk =
     (let dayStart = startOfDay date;
          dayEnd = endOfDay date;
          (now, clk') = newDate clk;
          availabilityForDate = filter (intersectsDay dayStart dayEnd) availability
      in (flatMapE (slotsOfWindow bookings busyTimes slotDurationMinutes dayStart dayEnd now)
            availabilityForDate,
          clk'))"

text \<open>The callback of \<open>availabilityForDate.some\<close> in \<open>checkDayHasAvailableSlot\<close> (lines 187-214).\<close>

definition windowHasFreeSlot ::
  "BookingSlot list \<Rightarrow> BusyTime list \<Rightarrow> int \<Rightarrow> instant \<Rightarrow> instant \<Rightarrow>
   AvailabilitySlot \<Rightarrow> error + bool" where
  "windowHasFreeSlot bookings busyTimes slotDurationMinutes dayStart dayEnd availSlot =
     (let availStart = startDateTime availSlot;
          availEnd = endDateTime availSlot;
          slotStart = (if availStart < dayStart then dayStart else availStart);
          slotEnd = (if availEnd > dayEnd then dayEnd else availEnd)
      in case generateSlotStarts slotStart slotEnd slotDurationMinutes of
           Inl e \<Rightarrow> Inl e
         | Inr potentialSlots \<Rightarrow>
             Inr (list_ex (slotIsFree bookings busyTimes slotDurationMinutes) potentialSlots))"

definition checkDayHasAvailableSlot ::
  "AvailabilitySlot list \<Rightarrow> BookingSlot list \<Rightarrow> instant \<Rightarrow> instant \<Rightarrow> int \<Rightarrow>
   BusyTime list \<Rightarrow> error + bool" where
  "checkDayHasAvailableSlot availabilityForDate bookings dayStart dayEnd slotDurationMinutes busyTimes =
     someE (windowHasFreeSlot bookings busyTimes slotDurationMinutes dayStart dayEnd)
       availabilityForDate"

text \<open>The callback of the second \<open>filter\<close> in \<open>computeAvailableDates\<close> (lines 69-95).\<close>

definition dayIsAvailable ::
  "AvailabilitySlot list \<Rightarrow> BookingSlot list \<Rightarrow> int \<Rightarrow> BusyTime list \<Rightarrow> instant \<Rightarrow>
   error + bool" where
  "dayIsAvailable availability bookings slotDurationMinutes busyTimes currentDate =
     (let dayStart = startOfDay currentDate;
          dayEnd = endOfDay currentDate;
          availabilityForDate = filter (intersectsDay dayStart dayEnd) availability
      in if availabilityForDate = [] then Inr False
         else checkDayHasAvailableSlot availabilityForDate bookings dayStart dayEnd
                slotDurationMinutes busyTimes)"

definition computeAvailableDates ::
  "(instant \<Rightarrow> string) \<Rightarrow> AvailabilitySlot list \<Rightarrow> BookingSlot list \<Rightarrow> instant \<Rightarrow> instant \<Rightarrow>
   int \<Rightarrow> BusyTime list \<Rightarrow> clock \<Rightarrow> (error + string list) \<times> clock" where
  "computeAvailableDates format availability bookings startDate endDate slotDurationMinutes
     busyTimes clk =
     (let (now, clk') = newDate clk;
          today = startOfDay now;
          dayCount = ceilDiv (roundDouble (endDate - startDate)) (1000 * 60 * 60 * 24) + 1
      in (case arrayFrom (Finite dayCount) (\<lambda>i. addDays (startOfDay startDate) (int i)) of
            Inl e \<Rightarrow> Inl e
          | Inr days \<Rightarrow>
              (case filterE (dayIsAvailable availability bookings slotDurationMinutes busyTimes)
                      (filter (\<lambda>currentDate. currentDate \<ge> today \<and> currentDate \<le> endDate) days) of
                 Inl e \<Rightarrow> Inl e
               | Inr kept \<Rightarrow> Inr (map format kept)),
          clk'))"


section \<open>Days and candidates\<close>

lemma msPerDay_pos: "0 < msPerDay"
  by (simp add: msPerDay_def)

lemma startOfDay_le: "startOfDay d \<le> d"
  using msPerDay_pos by (simp add: startOfDay_def)

lemma startOfDay_gt: "d < startOfDay d + msPerDay"
  using msPerDay_pos pos_mod_bound [of msPerDay d] by (simp add: startOfDay_def)

lemma startOfDay_addDays: "startOfDay (addDays (startOfDay d) k) = addDays (startOfDay d) k"
  by (simp add: startOfDay_def addDays_def minus_mod_eq_mult_div)

lemma day_length: "endOfDay d - startOfDay d = msPerDay - 1"
  by (simp add: endOfDay_def)

lemma clip_start: "(if a < d then d else a) = max a (d::int)"
  by (simp add: max_def)

lemma clip_end: "(if a > d then d else a) = min a (d::int)"
  by (simp add: min_def)

lemma roundDouble_exact: "\<bar>x\<bar> \<le> 9007199254740992 \<Longrightarrow> roundDouble x = x"
  by (simp add: roundDouble_def)

lemma roundDouble_nonneg: "0 \<le> x \<Longrightarrow> 0 \<le> roundDouble x"
  by (simp add: roundDouble_def Let_def pos_imp_zdiv_nonneg_iff)

lemma roundDouble_nonpos: "x \<le> 0 \<Longrightarrow> roundDouble x \<le> 0"
  by (simp add: roundDouble_def Let_def pos_imp_zdiv_nonneg_iff mult_le_0_iff sgn_if)

text \<open>Below \<open>2^53\<close> the rounding of a difference does not change a slot count.\<close>

lemma roundDouble_count:
  assumes "x \<le> 9007199254740992" and "0 < m"
  shows "nat (roundDouble x div m) = nat (x div m)"
proof (cases "- 9007199254740992 \<le> x")
  case True
  with assms(1) have "roundDouble x = x" by (intro roundDouble_exact) simp
  then show ?thesis by simp
next
  case False
  then have "x \<le> 0" by simp
  then have "roundDouble x \<le> 0" by (rule roundDouble_nonpos)
  then have "roundDouble x div m \<le> 0"
    using assms(2) by (simp add: pos_imp_zdiv_neg_iff div_nonpos_pos_le0)
  moreover have "x div m \<le> 0"
    using \<open>x \<le> 0\<close> assms(2) by (simp add: div_nonpos_pos_le0)
  ultimately show ?thesis by simp
qed

lemma generateSlotStarts_pos:
  assumes "0 < dur" and "roundDouble (e - s) div (dur * 60000) \<le> maxArrayLength"
  shows "generateSlotStarts s e dur =
           Inr (map (\<lambda>i. addMinutes s (int i * dur))
                  [0..<nat (roundDouble (e - s) div (dur * 60000))])"
  using assms by (simp add: generateSlotStarts_def floorDiv_def mult.commute)

lemma generateSlotStarts_cases:
  "generateSlotStarts s e dur = Inl RangeError \<or>
   generateSlotStarts s e dur =
     Inr (map (\<lambda>i. addMinutes s (int i * dur))
            [0..<nat (roundDouble (e - s) div (dur * 60000))])"
  by (simp add: generateSlotStarts_def floorDiv_def mult.commute)

lemma generateSlotStarts_Inr:
  assumes "generateSlotStarts s e dur = Inr cs"
  shows "cs = map (\<lambda>i. addMinutes s (int i * dur))
                [0..<nat (roundDouble (e - s) div (dur * 60000))]"
  using assms generateSlotStarts_cases [of s e dur] by auto

lemma candidate_fits:
  assumes "0 < dur" and "int i < (e - s) div (dur * 60000)"
  shows "addMinutes (addMinutes s (int i * dur)) dur \<le> e"
proof -
  let ?ms = "dur * 60000"
  have ms: "0 < ?ms" using assms(1) by simp
  have "int i + 1 \<le> (e - s) div ?ms" using assms(2) by simp
  then have "(int i + 1) * ?ms \<le> (e - s) div ?ms * ?ms"
    using ms by (simp only: mult_right_mono less_imp_le)
  also have "\<dots> \<le> e - s"
    using ms pos_mod_sign [of ?ms "e - s"] by (simp add: minus_mod_eq_div_mult [symmetric])
  finally show ?thesis by (simp add: addMinutes_def algebra_simps)
qed



section \<open>Traversals that may raise\<close>

lemma flatMapE_append:
  "flatMapE f (xs @ ys) =
     (case flatMapE f xs of
        Inl e \<Rightarrow> Inl e
      | Inr a \<Rightarrow> (case flatMapE f ys of Inl e \<Rightarrow> Inl e | Inr b \<Rightarrow> Inr (a @ b)))"
  by (induction xs) (auto split: sum.splits)

lemma flatMapE_member:
  "flatMapE f xs = Inr ys \<Longrightarrow>
   y \<in> set ys \<longleftrightarrow> (\<exists>x\<in>set xs. \<exists>zs. f x = Inr zs \<and> y \<in> set zs)"
proof (induction xs arbitrary: ys)
  case Nil
  then show ?case by simp
next
  case (Cons x xs)
  from Cons.prems obtain a b where fx: "f x = Inr a" and rest: "flatMapE f xs = Inr b"
    and ys: "ys = a @ b"
    by (auto split: sum.splits)
  from Cons.IH [OF rest] fx ys show ?case by auto
qed

lemma flatMapE_total:
  "(\<And>x. x \<in> set xs \<Longrightarrow> \<exists>zs. f x = Inr zs) \<Longrightarrow> \<exists>ys. flatMapE f xs = Inr ys"
proof (induction xs)
  case Nil
  then show ?case by simp
next
  case (Cons x xs)
  then obtain zs ys where "f x = Inr zs" and "flatMapE f xs = Inr ys"
    by (metis list.set_intros(1) list.set_intros(2))
  then show ?case by simp
qed

lemma filterE_Inr: "filterE f xs = Inr ys \<Longrightarrow> ys = filter (\<lambda>x. f x = Inr True) xs"
proof (induction xs arbitrary: ys)
  case Nil
  then show ?case by simp
next
  case (Cons x xs)
  from Cons.prems obtain b zs where fx: "f x = Inr b" and rest: "filterE f xs = Inr zs"
    and ys: "ys = (if b then x # zs else zs)"
    by (auto split: sum.splits)
  from Cons.IH [OF rest] fx ys show ?case by auto
qed

lemma filterE_total:
  "(\<And>x. x \<in> set xs \<Longrightarrow> \<exists>b. f x = Inr b) \<Longrightarrow> \<exists>ys. filterE f xs = Inr ys"
proof (induction xs)
  case Nil
  then show ?case by simp
next
  case (Cons x xs)
  then obtain b ys where "f x = Inr b" and "filterE f xs = Inr ys"
    by (metis list.set_intros(1) list.set_intros(2))
  then show ?case by simp
qed

lemma someE_total:
  "(\<And>x. x \<in> set xs \<Longrightarrow> f x = Inr (g x)) \<Longrightarrow> someE f xs = Inr (list_ex g xs)"
  by (induction xs) auto

section \<open>The aggregators as functions of one clock reading\<close>

lemma computeAvailableSlots_unfold:
  "computeAvailableSlots availability bookings date dur busyTimes clk =
     (flatMapE (slotsOfWindow bookings busyTimes dur (startOfDay date) (endOfDay date) (shd clk))
        (filter (intersectsDay (startOfDay date) (endOfDay date)) availability),
      stl clk)"
  by (simp add: computeAvailableSlots_def newDate_def Let_def)

lemma computeAvailableDates_unfold:
  "computeAvailableDates fmt availability bookings startDate endDate dur busyTimes clk =
     (case arrayFrom (Finite (ceilDiv (roundDouble (endDate - startDate)) msPerDay + 1))
             (\<lambda>i. addDays (startOfDay startDate) (int i)) of
        Inl e \<Rightarrow> Inl e
      | Inr days \<Rightarrow>
          (case filterE (dayIsAvailable availability bookings dur busyTimes)
                  (filter (\<lambda>currentDate. currentDate \<ge> startOfDay (shd clk) \<and> currentDate \<le> endDate)
                     days) of
             Inl e \<Rightarrow> Inl e
           | Inr kept \<Rightarrow> Inr (map fmt kept)),
      stl clk)"
  by (simp add: computeAvailableDates_def newDate_def msPerDay_def Let_def)

lemma slotsOfWindow_Inr:
  assumes "slotsOfWindow bookings busyTimes dur dayStart dayEnd now w = Inr ss"
  shows "\<exists>cs. generateSlotStarts (max (startDateTime w) dayStart) (min (endDateTime w) dayEnd) dur
                 = Inr cs \<and>
              ss = map (\<lambda>c. \<lparr>slot_start = c, slot_end = addMinutes c dur\<rparr>)
                     (filter (slotIsFree bookings busyTimes dur) (filter (\<lambda>c. c \<ge> now) cs))"
  using assms
  by (auto simp add: slotsOfWindow_def Let_def clip_start clip_end split: sum.splits)

lemma slotsOfWindow_of_starts:
  assumes "generateSlotStarts (max (startDateTime w) dayStart) (min (endDateTime w) dayEnd) dur
             = Inr cs"
  shows "slotsOfWindow bookings busyTimes dur dayStart dayEnd now w =
           Inr (map (\<lambda>c. \<lparr>slot_start = c, slot_end = addMinutes c dur\<rparr>)
                  (filter (slotIsFree bookings busyTimes dur) (filter (\<lambda>c. c \<ge> now) cs)))"
  using assms
  by (simp add: slotsOfWindow_def Let_def clip_start clip_end)

text \<open>Every slot of the result comes from a candidate of one window of the day.\<close>

lemma computeAvailableSlots_member:
  assumes "fst (computeAvailableSlots availability bookings date dur busyTimes clk) = Inr slots"
    and "s \<in> set slots"
  shows "\<exists>w\<in>set availability. \<exists>cs. \<exists>c\<in>set cs.
           intersectsDay (startOfDay date) (endOfDay date) w \<and>
           generateSlotStarts (max (startDateTime w) (startOfDay date))
             (min (endDateTime w) (endOfDay date)) dur = Inr cs \<and>
           shd clk \<le> c \<and> slotIsFree bookings busyTimes dur c \<and>
           s = \<lparr>slot_start = c, slot_end = addMinutes c dur\<rparr>"
proof -
  let ?f = "slotsOfWindow bookings busyTimes dur (startOfDay date) (endOfDay date) (shd clk)"
  let ?ws = "filter (intersectsDay (startOfDay date) (endOfDay date)) availability"
  from assms(1) have "flatMapE ?f ?ws = Inr slots"
    by (simp add: computeAvailableSlots_unfold)
  from flatMapE_member [OF this, of s] assms(2)
  obtain w zs where w: "w \<in> set ?ws" and fw: "?f w = Inr zs" and s: "s \<in> set zs"
    by blast
  from slotsOfWindow_Inr [OF fw] obtain cs where
    cs: "generateSlotStarts (max (startDateTime w) (startOfDay date))
           (min (endDateTime w) (endOfDay date)) dur = Inr cs"
    and zs: "zs = map (\<lambda>c. \<lparr>slot_start = c, slot_end = addMinutes c dur\<rparr>)
               (filter (slotIsFree bookings busyTimes dur) (filter (\<lambda>c. c \<ge> shd clk) cs))"
    by blast
  from s zs obtain c where "c \<in> set cs" "shd clk \<le> c" "slotIsFree bookings busyTimes dur c"
    "s = \<lparr>slot_start = c, slot_end = addMinutes c dur\<rparr>"
    by auto
  with w cs show ?thesis by auto
qed

text \<open>
  With a positive duration no window of a day can raise: its clipped range is shorter than
  a day, so it holds fewer than 1440 candidates.
\<close>

lemma clipped_count_small:
  assumes "0 < dur"
  shows "(min we (endOfDay date) - max ws (startOfDay date)) div (dur * 60000) \<le> maxArrayLength"
proof -
  let ?ms = "dur * 60000"
  have ms: "0 < ?ms" using assms by simp
  have "min we (endOfDay date) - max ws (startOfDay date) \<le> endOfDay date - startOfDay date"
    by simp
  also have "\<dots> = msPerDay - 1" by (rule day_length)
  finally have "(min we (endOfDay date) - max ws (startOfDay date)) div ?ms \<le> (msPerDay - 1) div ?ms"
    using ms by (simp add: zdiv_mono1)
  also have "\<dots> \<le> (msPerDay - 1) div 1"
    using ms by (intro zdiv_mono2) (simp_all add: msPerDay_def)
  also have "\<dots> \<le> maxArrayLength" by (simp add: msPerDay_def maxArrayLength_def)
  finally show ?thesis .
qed

lemma generateSlotStarts_clipped:
  assumes "0 < dur"
  shows "generateSlotStarts (max ws (startOfDay date)) (min we (endOfDay date)) dur =
           Inr (map (\<lambda>i. addMinutes (max ws (startOfDay date)) (int i * dur))
                  [0..<nat ((min we (endOfDay date) - max ws (startOfDay date))
                              div (dur * 60000))])"
proof -
  let ?x = "min we (endOfDay date) - max ws (startOfDay date)"
  let ?ms = "dur * 60000"
  have ms: "0 < ?ms" using assms by simp
  have "?x \<le> endOfDay date - startOfDay date" by simp
  also have "\<dots> = msPerDay - 1" by (rule day_length)
  finally have small: "?x \<le> 9007199254740992" by (simp add: msPerDay_def)
  have count: "nat (roundDouble ?x div ?ms) = nat (?x div ?ms)"
    using small ms by (rule roundDouble_count)
  have "roundDouble ?x div ?ms \<le> maxArrayLength"
  proof (cases "- 9007199254740992 \<le> ?x")
    case True
    with small have "roundDouble ?x = ?x" by (intro roundDouble_exact) simp
    with clipped_count_small [OF assms, of we date ws] show ?thesis by simp
  next
    case False
    then have "?x \<le> 0" by simp
    then have "roundDouble ?x \<le> 0" by (rule roundDouble_nonpos)
    then have "roundDouble ?x div ?ms \<le> 0"
      using ms by (simp add: div_nonpos_pos_le0)
    then show ?thesis by (simp add: maxArrayLength_def)
  qed
  with assms show ?thesis
    unfolding count [symmetric] by (rule generateSlotStarts_pos)
qed

lemma slotsOfWindow_pos_total:
  assumes "0 < dur"
  shows "\<exists>ss. slotsOfWindow bookings busyTimes dur (startOfDay date) (endOfDay date) now w = Inr ss"
  using generateSlotStarts_clipped [OF assms]
  by (simp add: slotsOfWindow_of_starts)

lemma computeAvailableSlots_pos_total:
  assumes "0 < dur"
  shows "\<exists>slots. fst (computeAvailableSlots availability bookings date dur busyTimes clk) = Inr slots"
  unfolding computeAvailableSlots_unfold fst_conv
  by (rule flatMapE_total) (rule slotsOfWindow_pos_total [OF assms])


section \<open>Evaluation at concrete inputs\<close>

lemmas eval_slots = computeAvailableSlots_unfold roundDouble_exact startOfDay_def endOfDay_def
  msPerDay_def
  intersectsDay_def isWithinInterval_def slotsOfWindow_def generateSlotStarts_def floorDiv_def
  maxArrayLength_def addMinutes_def slotIsFree_def upt_rec

lemmas eval_dates = computeAvailableDates_unfold roundDouble_exact ceilDiv_def addDays_def
  dayIsAvailable_def
  checkDayHasAvailableSlot_def windowHasFreeSlot_def startOfDay_def endOfDay_def msPerDay_def
  intersectsDay_def isWithinInterval_def generateSlotStarts_def floorDiv_def
  maxArrayLength_def addMinutes_def slotIsFree_def upt_rec

lemma formatYMD_epoch: "formatYMD 0 = ''1970-01-01''"
  by code_simp

lemma formatYMD_day2: "formatYMD 86400000 = ''1970-01-02''"
  by code_simp

lemma formatYMD_day3: "formatYMD 172800000 = ''1970-01-03''"
  by code_simp

text \<open>
  The scenario of the specification: a window 09:00-12:00, one booking 10:00-10:30, slots of
  30 minutes, the clock at 08:00 of the same day.
\<close>

lemma scenario_morning:
  "fst (computeAvailableSlots
         [\<lparr>key = ''w'', startDateTime = 32400000, endDateTime = 43200000\<rparr>]
         [\<lparr>id = ''b'', startTime = 36000000, endTime = 37800000\<rparr>] 0 30 [] (sconst 28800000)) =
   Inr [\<lparr>slot_start = 32400000, slot_end = 34200000\<rparr>,
        \<lparr>slot_start = 34200000, slot_end = 36000000\<rparr>,
        \<lparr>slot_start = 37800000, slot_end = 39600000\<rparr>,
        \<lparr>slot_start = 39600000, slot_end = 41400000\<rparr>,
        \<lparr>slot_start = 41400000, slot_end = 43200000\<rparr>]"
  by (simp add: eval_slots)

lemma scenario_morning_dates:
  "fst (computeAvailableDates formatYMD
         [\<lparr>key = ''w'', startDateTime = 32400000, endDateTime = 43200000\<rparr>]
         [\<lparr>id = ''b'', startTime = 36000000, endTime = 37800000\<rparr>] 0 0 30 [] (sconst 28800000)) =
   Inr [''1970-01-01'']"
  by (simp add: eval_dates formatYMD_epoch)


section \<open>The slot generator\<close>

text \<open>
  C3 (amended). For a positive duration, a range with \<open>|rangeEnd - rangeStart|\<close> at most
  \<open>2^53\<close> (so that the difference of the two instants is computed exactly) and a slot count
  \<open>floor((rangeEnd - rangeStart) / duration)\<close> that does not exceed the largest array length,
  \<open>generateSlotStarts\<close> returns exactly that many instants (none when the count is
  negative), the i-th being \<open>rangeStart + i * duration\<close>, in strictly ascending order; every
  generated slot ends at or before \<open>rangeEnd\<close>; and the result is empty when
  \<open>rangeStart > rangeEnd\<close>.
\<close>

theorem generateSlotStarts_lattice:
  assumes "0 < durationMinutes"
    and "\<bar>rangeEnd - rangeStart\<bar> \<le> 9007199254740992"
    and "(rangeEnd - rangeStart) div (durationMinutes * 60000) \<le> maxArrayLength"
  shows "\<exists>starts. generateSlotStarts rangeStart rangeEnd durationMinutes = Inr starts \<and>
           length starts = nat ((rangeEnd - rangeStart) div (durationMinutes * 60000)) \<and>
           (\<forall>i<length starts. starts ! i = addMinutes rangeStart (int i * durationMinutes)) \<and>
           sorted_wrt (<) starts \<and>
           (\<forall>c\<in>set starts. addMinutes c durationMinutes \<le> rangeEnd) \<and>
           (rangeStart > rangeEnd \<longrightarrow> starts = [])"
proof -
  let ?n = "nat ((rangeEnd - rangeStart) div (durationMinutes * 60000))"
  let ?starts = "map (\<lambda>i. addMinutes rangeStart (int i * durationMinutes)) [0..<?n]"
  have exact: "roundDouble (rangeEnd - rangeStart) = rangeEnd - rangeStart"
    using assms(2) by (rule roundDouble_exact)
  have ret: "generateSlotStarts rangeStart rangeEnd durationMinutes = Inr ?starts"
    using generateSlotStarts_pos [of durationMinutes rangeEnd rangeStart] assms(1,3)
    unfolding exact by simp
  have len: "length ?starts = ?n" by simp
  have nth: "\<forall>i<length ?starts. ?starts ! i = addMinutes rangeStart (int i * durationMinutes)"
    by simp
  have asc: "sorted_wrt (<) ?starts"
    using assms(1) by (simp add: sorted_wrt_map addMinutes_def sorted_wrt_upt)
  have fits: "\<forall>c\<in>set ?starts. addMinutes c durationMinutes \<le> rangeEnd"
  proof
    fix c assume "c \<in> set ?starts"
    then obtain i where i: "i < ?n" and c: "c = addMinutes rangeStart (int i * durationMinutes)"
      by auto
    from i have "int i < (rangeEnd - rangeStart) div (durationMinutes * 60000)" by simp
    with assms(1) show "addMinutes c durationMinutes \<le> rangeEnd"
      unfolding c by (rule candidate_fits)
  qed
  have empty: "rangeStart > rangeEnd \<longrightarrow> ?starts = []"
  proof
    assume "rangeStart > rangeEnd"
    then have "(rangeEnd - rangeStart) div (durationMinutes * 60000) < 0"
      using assms(1) by (simp add: div_neg_pos_less0)
    then show "?starts = []" by simp
  qed
  from ret len nth asc fits empty show ?thesis by blast
qed

theorem generateSlotStarts_lattice_witness:
  "(0::int) < 30 \<and> \<bar>43200000 - 32400000\<bar> \<le> (9007199254740992::int) \<and>
   (43200000 - 32400000) div (30 * 60000) \<le> maxArrayLength \<and>
   generateSlotStarts 32400000 43200000 30 =
     Inr [32400000, 34200000, 36000000, 37800000, 39600000, 41400000]"
proof -
  have h1: "(0::int) < 30" by simp
  have h0: "\<bar>43200000 - 32400000\<bar> \<le> (9007199254740992::int)" by simp
  have h2: "(43200000 - 32400000) div (30 * 60000) \<le> maxArrayLength"
    by (simp add: maxArrayLength_def)
  from generateSlotStarts_lattice [OF h1 h0 h2]
  obtain starts where ret: "generateSlotStarts 32400000 43200000 30 = Inr starts"
    and len: "length starts = nat ((43200000 - 32400000) div (30 * 60000))"
    and nth: "\<forall>i<length starts. starts ! i = addMinutes 32400000 (int i * 30)"
    by blast
  from len have len6: "length starts = 6" by simp
  have "starts = map (\<lambda>i. starts ! i) [0..<length starts]"
    by (simp add: map_nth)
  also have "\<dots> = map (\<lambda>i. addMinutes 32400000 (int i * 30)) [0..<length starts]"
    using nth by simp
  also have "\<dots> = [32400000, 34200000, 36000000, 37800000, 39600000, 41400000]"
    unfolding len6 by (simp add: addMinutes_def upt_rec)
  finally show ?thesis using h1 h0 h2 ret by simp
qed

text \<open>
  Two inputs at which the count is not \<open>floor((rangeEnd - rangeStart) / duration)\<close>: a count
  above the largest array length raises RangeError; and over the whole range of valid dates
  the difference 17279999999999999 is rounded to 17280000000000000, so that two instants are
  returned where the quotient is below 2, the second slot ending after \<open>rangeEnd\<close>.
\<close>

theorem generateSlotStarts_lattice_counterexample:
  "generateSlotStarts 0 8640000000000000 1 = Inl RangeError \<and>
   \<not> (\<exists>starts. generateSlotStarts 0 8640000000000000 1 = Inr starts \<and>
          length starts = nat ((8640000000000000 - 0) div (1 * 60000))) \<and>
   generateSlotStarts (- 8640000000000000) 8639999999999999 144000000000 =
     Inr [- 8640000000000000, 0] \<and>
   nat ((8639999999999999 - (- 8640000000000000)) div (144000000000 * 60000)) = 1 \<and>
   8639999999999999 < addMinutes 0 144000000000"
proof (intro conjI)
  show "generateSlotStarts 0 8640000000000000 1 = Inl RangeError"
    by (simp add: generateSlotStarts_def floorDiv_def maxArrayLength_def roundDouble_exact)
  then show "\<not> (\<exists>starts. generateSlotStarts 0 8640000000000000 1 = Inr starts \<and>
          length starts = nat ((8640000000000000 - 0) div (1 * 60000)))"
    by simp
  have "roundDouble 17279999999999999 = 17280000000000000"
    by code_simp
  then show "generateSlotStarts (- 8640000000000000) 8639999999999999 144000000000 =
     Inr [- 8640000000000000, 0]"
    by (simp add: generateSlotStarts_def floorDiv_def maxArrayLength_def addMinutes_def upt_rec)
  show "nat ((8639999999999999 - (- 8640000000000000)) div (144000000000 * 60000)) = 1"
    by simp
  show "8639999999999999 < addMinutes 0 144000000000"
    by (simp add: addMinutes_def)
qed





section \<open>Past exclusion\<close>

lemma available_days_are_day_starts:
  assumes "fst (computeAvailableDates fmt availability bookings startDate endDate dur busyTimes clk)
             = Inr labels"
  shows "\<exists>kept. labels = map fmt kept \<and>
           (\<forall>d\<in>set kept. startOfDay d = d \<and> startOfDay (shd clk) \<le> d \<and> d \<le> endDate \<and>
              startOfDay startDate \<le> d \<and>
              dayIsAvailable availability bookings dur busyTimes d = Inr True)"
proof -
  let ?n = "ceilDiv (roundDouble (endDate - startDate)) msPerDay + 1"
  let ?mk = "\<lambda>i. addDays (startOfDay startDate) (int i)"
  let ?keep = "\<lambda>currentDate. currentDate \<ge> startOfDay (shd clk) \<and> currentDate \<le> endDate"
  from assms obtain days kept where
    days: "arrayFrom (Finite ?n) ?mk = Inr days"
    and kept: "filterE (dayIsAvailable availability bookings dur busyTimes) (filter ?keep days)
                 = Inr kept"
    and labels: "labels = map fmt kept"
    by (auto simp add: computeAvailableDates_unfold split: sum.splits)
  from days have days_eq: "days = map ?mk [0..<nat ?n]"
    by (simp split: if_splits)
  have "\<forall>d\<in>set kept. startOfDay d = d \<and> startOfDay (shd clk) \<le> d \<and> d \<le> endDate \<and>
          startOfDay startDate \<le> d \<and>
          dayIsAvailable availability bookings dur busyTimes d = Inr True"
  proof
    fix d assume "d \<in> set kept"
    with filterE_Inr [OF kept] have av: "dayIsAvailable availability bookings dur busyTimes d = Inr True"
      and keep: "?keep d" and "d \<in> set days"
      by auto
    then obtain i where d: "d = ?mk i" using days_eq by auto
    have "startOfDay d = d" unfolding d by (rule startOfDay_addDays)
    moreover have "startOfDay startDate \<le> d"
      unfolding d using msPerDay_pos by (simp add: addDays_def)
    ultimately show "startOfDay d = d \<and> startOfDay (shd clk) \<le> d \<and> d \<le> endDate \<and>
          startOfDay startDate \<le> d \<and>
          dayIsAvailable availability bookings dur busyTimes d = Inr True"
      using av keep by simp
  qed
  with labels show ?thesis by blast
qed

text \<open>
  C5. Every slot returned by \<open>computeAvailableSlots\<close> starts at or after the instant read
  from the clock, and every label returned by \<open>computeAvailableDates\<close> is the label of a
  day that starts at or after the start of the day of the instant read from the clock.
\<close>

theorem past_exclusion:
  "(fst (computeAvailableSlots availability bookings date dur busyTimes clk) = Inr slots \<longrightarrow>
      (\<forall>s\<in>set slots. fst (newDate clk) \<le> slot_start s)) \<and>
   (fst (computeAvailableDates fmt availability bookings startDate endDate dur busyTimes clk)
      = Inr labels \<longrightarrow>
      (\<forall>l\<in>set labels. \<exists>d. l = fmt d \<and> startOfDay d = d \<and> startOfDay (fst (newDate clk)) \<le> d))"
proof (intro conjI impI ballI)
  fix s
  assume "fst (computeAvailableSlots availability bookings date dur busyTimes clk) = Inr slots"
    and "s \<in> set slots"
  from computeAvailableSlots_member [OF this]
  show "fst (newDate clk) \<le> slot_start s"
    by (auto simp add: newDate_def)
next
  fix l
  assume "fst (computeAvailableDates fmt availability bookings startDate endDate dur busyTimes clk)
            = Inr labels"
    and l: "l \<in> set labels"
  from available_days_are_day_starts [OF this(1)] l
  obtain d where "l = fmt d" and "startOfDay d = d" and "startOfDay (shd clk) \<le> d"
    by auto
  then show "\<exists>d. l = fmt d \<and> startOfDay d = d \<and> startOfDay (fst (newDate clk)) \<le> d"
    unfolding newDate_def fst_conv by blast
qed

theorem past_exclusion_witness:
  "fst (computeAvailableSlots
         [\<lparr>key = ''w'', startDateTime = 32400000, endDateTime = 43200000\<rparr>]
         [\<lparr>id = ''b'', startTime = 36000000, endTime = 37800000\<rparr>] 0 30 [] (sconst 28800000)) =
   Inr [\<lparr>slot_start = 32400000, slot_end = 34200000\<rparr>,
        \<lparr>slot_start = 34200000, slot_end = 36000000\<rparr>,
        \<lparr>slot_start = 37800000, slot_end = 39600000\<rparr>,
        \<lparr>slot_start = 39600000, slot_end = 41400000\<rparr>,
        \<lparr>slot_start = 41400000, slot_end = 43200000\<rparr>] \<and>
   fst (newDate (sconst 28800000)) \<le> slot_start \<lparr>slot_start = 32400000, slot_end = 34200000\<rparr> \<and>
   fst (computeAvailableDates formatYMD
         [\<lparr>key = ''w'', startDateTime = 32400000, endDateTime = 43200000\<rparr>]
         [\<lparr>id = ''b'', startTime = 36000000, endTime = 37800000\<rparr>] 0 0 30 [] (sconst 28800000)) =
   Inr [''1970-01-01''] \<and>
   (\<exists>d. ''1970-01-01'' = formatYMD d \<and> startOfDay d = d \<and>
        startOfDay (fst (newDate (sconst 28800000))) \<le> d)"
proof -
  let ?slots = "[\<lparr>slot_start = 32400000, slot_end = 34200000\<rparr>,
          \<lparr>slot_start = 34200000, slot_end = 36000000\<rparr>,
          \<lparr>slot_start = 37800000, slot_end = 39600000\<rparr>,
          \<lparr>slot_start = 39600000, slot_end = 41400000\<rparr>,
          \<lparr>slot_start = 41400000, slot_end = (43200000::int)\<rparr>]"
  note inst = past_exclusion
    [of "[\<lparr>key = ''w'', startDateTime = 32400000, endDateTime = 43200000\<rparr>]"
        "[\<lparr>id = ''b'', startTime = 36000000, endTime = 37800000\<rparr>]" 0 30 "[]" "sconst 28800000"
        ?slots formatYMD 0 0 "[''1970-01-01'']"]
  from inst scenario_morning
  have "\<forall>s\<in>set ?slots. fst (newDate (sconst 28800000)) \<le> slot_start s"
    by blast
  then have a: "fst (newDate (sconst 28800000)) \<le>
                  slot_start \<lparr>slot_start = 32400000, slot_end = 34200000\<rparr>"
    by (simp del: FreeSlot.simps)
  from inst scenario_morning_dates
  have "\<forall>l\<in>set [''1970-01-01'']. \<exists>d. l = formatYMD d \<and> startOfDay d = d \<and>
          startOfDay (fst (newDate (sconst 28800000))) \<le> d"
    by blast
  then have b: "\<exists>d. ''1970-01-01'' = formatYMD d \<and> startOfDay d = d \<and>
        startOfDay (fst (newDate (sconst 28800000))) \<le> d"
    by simp
  from scenario_morning a scenario_morning_dates b show ?thesis
    by (intro conjI)
qed

section \<open>Windows are processed independently\<close>

text \<open>
  C8. The result of \<open>computeAvailableSlots\<close> for a list of windows is the result for its
  first part followed by the result for its second part, in this order (an exception of either
  part is the exception of the whole); for a window given twice, every slot of the window is
  returned twice. Nothing is merged or deduplicated.
\<close>

theorem slots_concatenate_per_window:
  "fst (computeAvailableSlots (xs @ ys) bookings date dur busyTimes clk) =
     (case fst (computeAvailableSlots xs bookings date dur busyTimes clk) of
        Inl e \<Rightarrow> Inl e
      | Inr a \<Rightarrow>
          (case fst (computeAvailableSlots ys bookings date dur busyTimes clk) of
             Inl e \<Rightarrow> Inl e
           | Inr b \<Rightarrow> Inr (a @ b))) \<and>
   fst (computeAvailableSlots [w, w] bookings date dur busyTimes clk) =
     (case fst (computeAvailableSlots [w] bookings date dur busyTimes clk) of
        Inl e \<Rightarrow> Inl e
      | Inr a \<Rightarrow> Inr (a @ a))"
proof
  show "fst (computeAvailableSlots (xs @ ys) bookings date dur busyTimes clk) =
     (case fst (computeAvailableSlots xs bookings date dur busyTimes clk) of
        Inl e \<Rightarrow> Inl e
      | Inr a \<Rightarrow>
          (case fst (computeAvailableSlots ys bookings date dur busyTimes clk) of
             Inl e \<Rightarrow> Inl e
           | Inr b \<Rightarrow> Inr (a @ b)))"
    by (simp add: computeAvailableSlots_unfold flatMapE_append cong: sum.case_cong)
  have "[w, w] = [w] @ [w]" by simp
  then have "fst (computeAvailableSlots [w, w] bookings date dur busyTimes clk) =
     (case fst (computeAvailableSlots [w] bookings date dur busyTimes clk) of
        Inl e \<Rightarrow> Inl e
      | Inr a \<Rightarrow>
          (case fst (computeAvailableSlots [w] bookings date dur busyTimes clk) of
             Inl e \<Rightarrow> Inl e
           | Inr b \<Rightarrow> Inr (a @ b)))"
    by (simp only: computeAvailableSlots_unfold fst_conv filter_append flatMapE_append)
  then show "fst (computeAvailableSlots [w, w] bookings date dur busyTimes clk) =
     (case fst (computeAvailableSlots [w] bookings date dur busyTimes clk) of
        Inl e \<Rightarrow> Inl e
      | Inr a \<Rightarrow> Inr (a @ a))"
    by (simp split: sum.splits)
qed

theorem slots_concatenate_per_window_witness:
  "fst (computeAvailableSlots
         [\<lparr>key = ''w'', startDateTime = 32400000, endDateTime = 36000000\<rparr>,
          \<lparr>key = ''w'', startDateTime = 32400000, endDateTime = 36000000\<rparr>]
         [] 0 30 [] (sconst 0)) =
   Inr [\<lparr>slot_start = 32400000, slot_end = 34200000\<rparr>,
        \<lparr>slot_start = 34200000, slot_end = 36000000\<rparr>,
        \<lparr>slot_start = 32400000, slot_end = 34200000\<rparr>,
        \<lparr>slot_start = 34200000, slot_end = 36000000\<rparr>]"
proof -
  have one: "fst (computeAvailableSlots
         [\<lparr>key = ''w'', startDateTime = 32400000, endDateTime = 36000000\<rparr>]
         [] 0 30 [] (sconst 0)) =
       Inr [\<lparr>slot_start = 32400000, slot_end = 34200000\<rparr>,
            \<lparr>slot_start = 34200000, slot_end = 36000000\<rparr>]"
    by (simp add: eval_slots)
  from slots_concatenate_per_window
    [of "[]" "[]" "[]" 0 30 "[]" "sconst 0"
        "\<lparr>key = ''w'', startDateTime = 32400000, endDateTime = 36000000\<rparr>"]
  show ?thesis
    unfolding one by simp
qed

section \<open>Dependence on the clock\<close>

text \<open>
  C9. Each aggregator reads the clock exactly once, and its output is a function of its
  arguments and of that one reading: two runs with the same arguments under clocks that agree
  on the next reading give the same output, whatever the clocks show afterwards.
\<close>

theorem aggregators_read_clock_once:
  assumes "shd clk1 = shd clk2"
  shows "fst (computeAvailableSlots availability bookings date dur busyTimes clk1) =
           fst (computeAvailableSlots availability bookings date dur busyTimes clk2) \<and>
         fst (computeAvailableDates fmt availability bookings startDate endDate dur busyTimes clk1) =
           fst (computeAvailableDates fmt availability bookings startDate endDate dur busyTimes clk2) \<and>
         snd (computeAvailableSlots availability bookings date dur busyTimes clk1) = stl clk1 \<and>
         snd (computeAvailableDates fmt availability bookings startDate endDate dur busyTimes clk1)
           = stl clk1"
  using assms by (simp add: computeAvailableSlots_unfold computeAvailableDates_unfold)

theorem aggregators_read_clock_once_witness:
  "shd (28800000 ## sconst 0) = shd (28800000 ## sconst 99999999) \<and>
   fst (computeAvailableSlots
         [\<lparr>key = ''w'', startDateTime = 32400000, endDateTime = 43200000\<rparr>]
         [\<lparr>id = ''b'', startTime = 36000000, endTime = 37800000\<rparr>] 0 30 []
         (28800000 ## sconst 0)) =
   fst (computeAvailableSlots
         [\<lparr>key = ''w'', startDateTime = 32400000, endDateTime = 43200000\<rparr>]
         [\<lparr>id = ''b'', startTime = 36000000, endTime = 37800000\<rparr>] 0 30 []
         (28800000 ## sconst 99999999)) \<and>
   snd (computeAvailableSlots
         [\<lparr>key = ''w'', startDateTime = 32400000, endDateTime = 43200000\<rparr>]
         [\<lparr>id = ''b'', startTime = 36000000, endTime = 37800000\<rparr>] 0 30 []
         (28800000 ## sconst 0)) = sconst 0"
proof -
  have h: "shd (28800000 ## sconst 0) = shd (28800000 ## sconst (99999999::int))" by simp
  from aggregators_read_clock_once
    [OF h, of "[\<lparr>key = ''w'', startDateTime = 32400000, endDateTime = 43200000\<rparr>]"
       "[\<lparr>id = ''b'', startTime = 36000000, endTime = 37800000\<rparr>]" 0 30 "[]"]
    h show ?thesis
    by simp
qed


section \<open>The conflict rule\<close>

lemma slotIsFree_iff:
  "slotIsFree bookings busyTimes dur a \<longleftrightarrow>
     (\<forall>b\<in>set bookings. \<not> (a < endTime b \<and> addMinutes a dur > startTime b)) \<and>
     (\<forall>z\<in>set busyTimes. \<not> (a < busy_end z \<and> addMinutes a dur > busy_start z))"
  by (simp add: slotIsFree_def Let_def list_ex_iff)

lemma computeAvailableSlots_includes:
  assumes res: "fst (computeAvailableSlots availability bookings date dur busyTimes clk) = Inr slots"
    and w: "w \<in> set availability" "intersectsDay (startOfDay date) (endOfDay date) w"
    and cs: "generateSlotStarts (max (startDateTime w) (startOfDay date))
               (min (endDateTime w) (endOfDay date)) dur = Inr cs"
    and c: "c \<in> set cs" "shd clk \<le> c" "slotIsFree bookings busyTimes dur c"
  shows "\<lparr>slot_start = c, slot_end = addMinutes c dur\<rparr> \<in> set slots"
proof -
  let ?f = "slotsOfWindow bookings busyTimes dur (startOfDay date) (endOfDay date) (shd clk)"
  let ?ws = "filter (intersectsDay (startOfDay date) (endOfDay date)) availability"
  from res have flat: "flatMapE ?f ?ws = Inr slots"
    by (simp add: computeAvailableSlots_unfold)
  have "w \<in> set ?ws" using w by simp
  moreover have "\<lparr>slot_start = c, slot_end = addMinutes c dur\<rparr> \<in>
      set (map (\<lambda>c. \<lparr>slot_start = c, slot_end = addMinutes c dur\<rparr>)
             (filter (slotIsFree bookings busyTimes dur) (filter (\<lambda>c. c \<ge> shd clk) cs)))"
    using c by simp
  ultimately show ?thesis
    using flatMapE_member [OF flat] slotsOfWindow_of_starts [OF cs] by blast
qed

text \<open>
  C2. A candidate slot \<open>[a, b)\<close> with \<open>b = a + duration\<close> is rejected by the conflict check
  iff some booking or busy interval \<open>[c, d)\<close> has \<open>a < d\<close> and \<open>b > c\<close>. No slot returned by
  \<open>computeAvailableSlots\<close> overlaps a booking or a busy interval in this sense; and a candidate
  of a window of the day that is not in the past and that every booking and busy interval
  precedes (ending at or before its start) or follows (starting at or after its end) is among
  the returned slots, so a slot that only touches an interval at a boundary is kept.
\<close>

theorem conflict_rule:
  assumes "fst (computeAvailableSlots availability bookings date dur busyTimes clk) = Inr slots"
  shows "(\<not> slotIsFree bookings busyTimes dur a \<longleftrightarrow>
            (\<exists>b\<in>set bookings. a < endTime b \<and> addMinutes a dur > startTime b) \<or>
            (\<exists>z\<in>set busyTimes. a < busy_end z \<and> addMinutes a dur > busy_start z)) \<and>
         (\<forall>s\<in>set slots.
            (\<forall>b\<in>set bookings. \<not> (slot_start s < endTime b \<and> slot_end s > startTime b)) \<and>
            (\<forall>z\<in>set busyTimes. \<not> (slot_start s < busy_end z \<and> slot_end s > busy_start z))) \<and>
         (\<forall>w\<in>set availability. \<forall>cs. \<forall>c\<in>set cs.
            intersectsDay (startOfDay date) (endOfDay date) w \<and>
            generateSlotStarts (max (startDateTime w) (startOfDay date))
              (min (endDateTime w) (endOfDay date)) dur = Inr cs \<and>
            fst (newDate clk) \<le> c \<and>
            (\<forall>b\<in>set bookings. endTime b \<le> c \<or> addMinutes c dur \<le> startTime b) \<and>
            (\<forall>z\<in>set busyTimes. busy_end z \<le> c \<or> addMinutes c dur \<le> busy_start z) \<longrightarrow>
            \<lparr>slot_start = c, slot_end = addMinutes c dur\<rparr> \<in> set slots)"
proof (intro conjI)
  show "\<not> slotIsFree bookings busyTimes dur a \<longleftrightarrow>
            (\<exists>b\<in>set bookings. a < endTime b \<and> addMinutes a dur > startTime b) \<or>
            (\<exists>z\<in>set busyTimes. a < busy_end z \<and> addMinutes a dur > busy_start z)"
    unfolding slotIsFree_iff by blast
next
  show "\<forall>s\<in>set slots.
            (\<forall>b\<in>set bookings. \<not> (slot_start s < endTime b \<and> slot_end s > startTime b)) \<and>
            (\<forall>z\<in>set busyTimes. \<not> (slot_start s < busy_end z \<and> slot_end s > busy_start z))"
  proof
    fix s assume "s \<in> set slots"
    from computeAvailableSlots_member [OF assms this]
    obtain c where free: "slotIsFree bookings busyTimes dur c"
      and s: "s = \<lparr>slot_start = c, slot_end = addMinutes c dur\<rparr>"
      by blast
    from free show "(\<forall>b\<in>set bookings. \<not> (slot_start s < endTime b \<and> slot_end s > startTime b)) \<and>
            (\<forall>z\<in>set busyTimes. \<not> (slot_start s < busy_end z \<and> slot_end s > busy_start z))"
      unfolding slotIsFree_iff s by simp
  qed
next
  show "\<forall>w\<in>set availability. \<forall>cs. \<forall>c\<in>set cs.
            intersectsDay (startOfDay date) (endOfDay date) w \<and>
            generateSlotStarts (max (startDateTime w) (startOfDay date))
              (min (endDateTime w) (endOfDay date)) dur = Inr cs \<and>
            fst (newDate clk) \<le> c \<and>
            (\<forall>b\<in>set bookings. endTime b \<le> c \<or> addMinutes c dur \<le> startTime b) \<and>
            (\<forall>z\<in>set busyTimes. busy_end z \<le> c \<or> addMinutes c dur \<le> busy_start z) \<longrightarrow>
            \<lparr>slot_start = c, slot_end = addMinutes c dur\<rparr> \<in> set slots"
  proof (intro ballI allI impI)
    fix w cs c
    assume w: "w \<in> set availability" and c: "c \<in> set cs"
      and h: "intersectsDay (startOfDay date) (endOfDay date) w \<and>
            generateSlotStarts (max (startDateTime w) (startOfDay date))
              (min (endDateTime w) (endOfDay date)) dur = Inr cs \<and>
            fst (newDate clk) \<le> c \<and>
            (\<forall>b\<in>set bookings. endTime b \<le> c \<or> addMinutes c dur \<le> startTime b) \<and>
            (\<forall>z\<in>set busyTimes. busy_end z \<le> c \<or> addMinutes c dur \<le> busy_start z)"
    from h have free: "slotIsFree bookings busyTimes dur c"
      unfolding slotIsFree_iff by (meson not_le)
    from h have now: "shd clk \<le> c" by (simp add: newDate_def)
    from h show "\<lparr>slot_start = c, slot_end = addMinutes c dur\<rparr> \<in> set slots"
      using computeAvailableSlots_includes [OF assms w _ _ c now free] by blast
  qed
qed

theorem conflict_rule_witness:
  "fst (computeAvailableSlots
         [\<lparr>key = ''w'', startDateTime = 32400000, endDateTime = 43200000\<rparr>]
         [\<lparr>id = ''b'', startTime = 36000000, endTime = 37800000\<rparr>] 0 30 [] (sconst 28800000)) =
   Inr [\<lparr>slot_start = 32400000, slot_end = 34200000\<rparr>,
        \<lparr>slot_start = 34200000, slot_end = 36000000\<rparr>,
        \<lparr>slot_start = 37800000, slot_end = 39600000\<rparr>,
        \<lparr>slot_start = 39600000, slot_end = 41400000\<rparr>,
        \<lparr>slot_start = 41400000, slot_end = 43200000\<rparr>] \<and>
   \<not> slotIsFree [\<lparr>id = ''b'', startTime = 36000000, endTime = 37800000\<rparr>] [] 30 36000000 \<and>
   slotIsFree [\<lparr>id = ''b'', startTime = 36000000, endTime = 37800000\<rparr>] [] 30 34200000 \<and>
   slotIsFree [\<lparr>id = ''b'', startTime = 36000000, endTime = 37800000\<rparr>] [] 30 37800000"
proof -
  note inst = conflict_rule [OF scenario_morning]
  from inst [of 36000000]
  have a: "\<not> slotIsFree [\<lparr>id = ''b'', startTime = 36000000, endTime = 37800000\<rparr>] [] 30 36000000"
    by (simp add: addMinutes_def)
  from inst [of 34200000]
  have b: "slotIsFree [\<lparr>id = ''b'', startTime = 36000000, endTime = 37800000\<rparr>] [] 30 34200000"
    by (simp add: addMinutes_def)
  from inst [of 37800000]
  have c: "slotIsFree [\<lparr>id = ''b'', startTime = 36000000, endTime = 37800000\<rparr>] [] 30 37800000"
    by (simp add: addMinutes_def)
  from scenario_morning a b c show ?thesis by (intro conjI)
qed


section \<open>Clipping to the window and to the day\<close>

lemma clipped_range_ordered:
  assumes "startDateTime w \<le> endDateTime w"
    and "intersectsDay (startOfDay date) (endOfDay date) w"
  shows "max (startDateTime w) (startOfDay date) \<le> min (endDateTime w) (endOfDay date)"
proof -
  have "startOfDay date \<le> endOfDay date"
    using msPerDay_pos by (simp add: endOfDay_def)
  with assms show ?thesis
    by (auto simp add: intersectsDay_def Let_def isWithinInterval_def)
qed

lemma nonpositive_duration_no_candidates:
  assumes "dur \<le> 0" and "s \<le> e" and "generateSlotStarts s e dur = Inr cs"
  shows "cs = []"
proof -
  have "roundDouble (e - s) div (dur * 60000) \<le> 0"
  proof (cases "dur = 0")
    case True
    then show ?thesis by simp
  next
    case False
    with assms(1) have "dur * 60000 < 0" by simp
    moreover have "0 \<le> roundDouble (e - s)"
      using assms(2) by (intro roundDouble_nonneg) simp
    ultimately show ?thesis by (rule div_nonneg_neg_le0 [rotated])
  qed
  with generateSlotStarts_Inr [OF assms(3)] show ?thesis by simp
qed

text \<open>
  The candidates of a window lie between its clipped start and its clipped end, when the
  duration is positive or the window is not reversed.
\<close>

lemma window_candidates_bounds:
  assumes ok: "0 < dur \<or> (startDateTime w \<le> endDateTime w \<and>
                              intersectsDay (startOfDay date) (endOfDay date) w)"
    and cs: "generateSlotStarts (max (startDateTime w) (startOfDay date))
               (min (endDateTime w) (endOfDay date)) dur = Inr cs"
    and c: "c \<in> set cs"
  shows "max (startDateTime w) (startOfDay date) \<le> c \<and>
         addMinutes c dur \<le> min (endDateTime w) (endOfDay date)"
proof (cases "0 < dur")
  case True
  let ?s = "max (startDateTime w) (startOfDay date)"
  let ?e = "min (endDateTime w) (endOfDay date)"
  from cs generateSlotStarts_clipped [OF True, of "startDateTime w" date "endDateTime w"]
  have "cs = map (\<lambda>i. addMinutes ?s (int i * dur)) [0..<nat ((?e - ?s) div (dur * 60000))]"
    by simp
  with c obtain i where i: "i < nat ((?e - ?s) div (dur * 60000))"
    and c_eq: "c = addMinutes ?s (int i * dur)"
    by auto
  from i have "int i < (?e - ?s) div (dur * 60000)" by simp
  with True have "addMinutes (addMinutes ?s (int i * dur)) dur \<le> ?e"
    by (rule candidate_fits)
  moreover have "?s \<le> addMinutes ?s (int i * dur)"
    using True by (simp add: addMinutes_def)
  ultimately show ?thesis unfolding c_eq by simp
next
  case False
  with ok have "startDateTime w \<le> endDateTime w"
    and "intersectsDay (startOfDay date) (endOfDay date) w"
    by simp_all
  then have "max (startDateTime w) (startOfDay date) \<le> min (endDateTime w) (endOfDay date)"
    by (rule clipped_range_ordered)
  with False cs have "cs = []"
    by (intro nonpositive_duration_no_candidates [of dur _ _ cs]) simp_all
  with c show ?thesis by simp
qed

text \<open>
  C6 (amended). When the duration is positive, or no availability window has its start after
  its end, each slot returned by \<open>computeAvailableSlots\<close> lies within an availability window
  of the day after clipping: it starts at or after \<open>max(window.start, dayStart)\<close>, ends at or
  before \<open>min(window.end, dayEnd)\<close>, and its end is its start plus the requested duration.
\<close>

theorem slots_within_clipped_window:
  assumes "fst (computeAvailableSlots availability bookings date dur busyTimes clk) = Inr slots"
    and "0 < dur \<or> list_all (\<lambda>w. startDateTime w \<le> endDateTime w) availability"
  shows "\<forall>s\<in>set slots. \<exists>w\<in>set availability.
           intersectsDay (startOfDay date) (endOfDay date) w \<and>
           max (startDateTime w) (startOfDay date) \<le> slot_start s \<and>
           slot_end s \<le> min (endDateTime w) (endOfDay date) \<and>
           slot_end s = addMinutes (slot_start s) dur"
proof
  fix s assume "s \<in> set slots"
  from computeAvailableSlots_member [OF assms(1) this]
  obtain w cs c where w: "w \<in> set availability"
    and day: "intersectsDay (startOfDay date) (endOfDay date) w"
    and cs: "generateSlotStarts (max (startDateTime w) (startOfDay date))
               (min (endDateTime w) (endOfDay date)) dur = Inr cs"
    and c: "c \<in> set cs"
    and s: "s = \<lparr>slot_start = c, slot_end = addMinutes c dur\<rparr>"
    by blast
  from assms(2) w day
  have "0 < dur \<or> (startDateTime w \<le> endDateTime w \<and>
                      intersectsDay (startOfDay date) (endOfDay date) w)"
    by (auto simp add: list_all_iff)
  from window_candidates_bounds [OF this cs c] w day
  show "\<exists>w\<in>set availability.
           intersectsDay (startOfDay date) (endOfDay date) w \<and>
           max (startDateTime w) (startOfDay date) \<le> slot_start s \<and>
           slot_end s \<le> min (endDateTime w) (endOfDay date) \<and>
           slot_end s = addMinutes (slot_start s) dur"
    unfolding s by auto
qed

theorem slots_within_clipped_window_witness:
  "fst (computeAvailableSlots
         [\<lparr>key = ''w'', startDateTime = 32400000, endDateTime = 43200000\<rparr>]
         [\<lparr>id = ''b'', startTime = 36000000, endTime = 37800000\<rparr>] 0 30 [] (sconst 28800000)) =
   Inr [\<lparr>slot_start = 32400000, slot_end = 34200000\<rparr>,
        \<lparr>slot_start = 34200000, slot_end = 36000000\<rparr>,
        \<lparr>slot_start = 37800000, slot_end = 39600000\<rparr>,
        \<lparr>slot_start = 39600000, slot_end = 41400000\<rparr>,
        \<lparr>slot_start = 41400000, slot_end = 43200000\<rparr>] \<and>
   (0::int) < 30 \<and>
   max 32400000 (startOfDay 0) \<le> slot_start \<lparr>slot_start = 41400000, slot_end = 43200000\<rparr> \<and>
   slot_end \<lparr>slot_start = 41400000, slot_end = 43200000\<rparr> \<le> min 43200000 (endOfDay 0)"
proof -
  have pos: "(0::int) < 30 \<or>
      list_all (\<lambda>w. startDateTime w \<le> endDateTime w)
        [\<lparr>key = ''w'', startDateTime = 32400000, endDateTime = 43200000\<rparr>]"
    by simp
  from slots_within_clipped_window [OF scenario_morning pos]
  have "max 32400000 (startOfDay 0) \<le> slot_start \<lparr>slot_start = 41400000, slot_end = 43200000\<rparr> \<and>
    slot_end \<lparr>slot_start = 41400000, slot_end = 43200000\<rparr> \<le> min 43200000 (endOfDay 0)"
    by simp
  with scenario_morning show ?thesis by simp
qed

theorem slots_within_clipped_window_counterexample:
  "fst (computeAvailableSlots
         [\<lparr>key = ''w'', startDateTime = 36000000, endDateTime = 32400000\<rparr>]
         [] 0 (- 30) [] (sconst 0)) =
   Inr [\<lparr>slot_start = 36000000, slot_end = 34200000\<rparr>,
        \<lparr>slot_start = 34200000, slot_end = 32400000\<rparr>] \<and>
   slot_start \<lparr>slot_start = 34200000, slot_end = 32400000\<rparr> < max 36000000 (startOfDay 0) \<and>
   min 32400000 (endOfDay 0) < slot_end \<lparr>slot_start = 36000000, slot_end = 34200000\<rparr>"
  by (simp add: eval_slots)

section \<open>The end of the day\<close>

text \<open>
  C10 (amended). The day boundary is the last millisecond of the queried day, 86399999 ms
  after its start, not the next midnight. When the duration is positive, or no availability
  window has its start after its end, every candidate generated for a window of the day, and
  so every slot returned by \<open>computeAvailableSlots\<close>, ends at or before that millisecond,
  hence strictly before the next midnight: a slot that would end exactly at midnight is never
  generated.
\<close>

theorem slots_end_before_midnight:
  assumes "0 < dur \<or> list_all (\<lambda>w. startDateTime w \<le> endDateTime w) availability"
  shows "endOfDay date = startOfDay date + 86399999 \<and>
         (\<forall>w\<in>set availability. \<forall>cs. \<forall>c\<in>set cs.
            intersectsDay (startOfDay date) (endOfDay date) w \<and>
            generateSlotStarts (max (startDateTime w) (startOfDay date))
              (min (endDateTime w) (endOfDay date)) dur = Inr cs \<longrightarrow>
            addMinutes c dur \<le> endOfDay date \<and> addMinutes c dur < startOfDay date + 86400000) \<and>
         (fst (computeAvailableSlots availability bookings date dur busyTimes clk) = Inr slots \<longrightarrow>
            (\<forall>s\<in>set slots. slot_end s \<le> endOfDay date \<and> slot_end s < startOfDay date + 86400000))"
proof (intro conjI)
  show eod: "endOfDay date = startOfDay date + 86399999"
    by (simp add: endOfDay_def msPerDay_def)
  show cands: "\<forall>w\<in>set availability. \<forall>cs. \<forall>c\<in>set cs.
            intersectsDay (startOfDay date) (endOfDay date) w \<and>
            generateSlotStarts (max (startDateTime w) (startOfDay date))
              (min (endDateTime w) (endOfDay date)) dur = Inr cs \<longrightarrow>
            addMinutes c dur \<le> endOfDay date \<and> addMinutes c dur < startOfDay date + 86400000"
  proof (intro ballI allI impI)
    fix w cs c
    assume w: "w \<in> set availability" and c: "c \<in> set cs"
      and h: "intersectsDay (startOfDay date) (endOfDay date) w \<and>
            generateSlotStarts (max (startDateTime w) (startOfDay date))
              (min (endDateTime w) (endOfDay date)) dur = Inr cs"
    from assms w h
    have "0 < dur \<or> (startDateTime w \<le> endDateTime w \<and>
                      intersectsDay (startOfDay date) (endOfDay date) w)"
      by (auto simp add: list_all_iff)
    from window_candidates_bounds [OF this _ c] h
    have "addMinutes c dur \<le> endOfDay date" by simp
    then show "addMinutes c dur \<le> endOfDay date \<and> addMinutes c dur < startOfDay date + 86400000"
      using eod by simp
  qed
  show "fst (computeAvailableSlots availability bookings date dur busyTimes clk) = Inr slots \<longrightarrow>
            (\<forall>s\<in>set slots. slot_end s \<le> endOfDay date \<and> slot_end s < startOfDay date + 86400000)"
  proof (intro impI ballI)
    fix s
    assume res: "fst (computeAvailableSlots availability bookings date dur busyTimes clk) = Inr slots"
      and "s \<in> set slots"
    from computeAvailableSlots_member [OF this]
    obtain w cs c where "w \<in> set availability" "c \<in> set cs"
      "intersectsDay (startOfDay date) (endOfDay date) w \<and>
       generateSlotStarts (max (startDateTime w) (startOfDay date))
              (min (endDateTime w) (endOfDay date)) dur = Inr cs"
      and s: "s = \<lparr>slot_start = c, slot_end = addMinutes c dur\<rparr>"
      by blast
    with cands show "slot_end s \<le> endOfDay date \<and> slot_end s < startOfDay date + 86400000"
      unfolding s by (simp del: ball_simps)
  qed
qed

text \<open>A window 23:00-24:00 with slots of 30 minutes gives the slot 23:00-23:30 only.\<close>

theorem slots_end_before_midnight_witness:
  "(0::int) < 30 \<and>
   fst (computeAvailableSlots
         [\<lparr>key = ''w'', startDateTime = 82800000, endDateTime = 86400000\<rparr>]
         [] 0 30 [] (sconst 0)) =
   Inr [\<lparr>slot_start = 82800000, slot_end = 84600000\<rparr>] \<and>
   endOfDay 0 = startOfDay 0 + 86399999 \<and>
   slot_end \<lparr>slot_start = 82800000, slot_end = 84600000\<rparr> < startOfDay 0 + 86400000"
proof -
  have pos: "(0::int) < 30 \<or>
      list_all (\<lambda>w. startDateTime w \<le> endDateTime w)
        [\<lparr>key = ''w'', startDateTime = 82800000, endDateTime = 86400000\<rparr>]"
    by simp
  have res: "fst (computeAvailableSlots
         [\<lparr>key = ''w'', startDateTime = 82800000, endDateTime = 86400000\<rparr>]
         [] 0 30 [] (sconst 0)) =
       Inr [\<lparr>slot_start = 82800000, slot_end = 84600000\<rparr>]"
    by (simp add: eval_slots)
  from slots_end_before_midnight [OF pos, of 0 "[]" "[]" "sconst 0"
      "[\<lparr>slot_start = 82800000, slot_end = 84600000\<rparr>]"] res
  have "endOfDay 0 = startOfDay 0 + 86399999 \<and>
        slot_end \<lparr>slot_start = 82800000, slot_end = 84600000\<rparr> < startOfDay 0 + 86400000"
    by simp
  with res show ?thesis by simp
qed

theorem slots_end_before_midnight_counterexample:
  "fst (computeAvailableSlots
         [\<lparr>key = ''w'', startDateTime = 88200000, endDateTime = 84600000\<rparr>]
         [] 0 (- 30) [] (sconst 0)) =
   Inr [\<lparr>slot_start = 88200000, slot_end = 86400000\<rparr>,
        \<lparr>slot_start = 86400000, slot_end = 84600000\<rparr>] \<and>
   endOfDay 0 = 86399999 \<and>
   endOfDay 0 < slot_end \<lparr>slot_start = 88200000, slot_end = 86400000\<rparr>"
  by (simp add: eval_slots)


section \<open>The day existence check\<close>

lemma windowHasFreeSlot_pos:
  assumes "0 < dur"
  shows "windowHasFreeSlot bookings busyTimes dur (startOfDay d) (endOfDay d) w =
           Inr (list_ex (slotIsFree bookings busyTimes dur)
                  (map (\<lambda>i. addMinutes (max (startDateTime w) (startOfDay d)) (int i * dur))
                     [0..<nat ((min (endDateTime w) (endOfDay d) - max (startDateTime w) (startOfDay d))
                                 div (dur * 60000))]))"
  using generateSlotStarts_clipped [OF assms]
  by (simp add: windowHasFreeSlot_def Let_def clip_start clip_end)

lemma dayIsAvailable_pos:
  assumes "0 < dur"
  shows "dayIsAvailable availability bookings dur busyTimes d =
           Inr (list_ex (\<lambda>w. list_ex (slotIsFree bookings busyTimes dur)
                  (map (\<lambda>i. addMinutes (max (startDateTime w) (startOfDay d)) (int i * dur))
                     [0..<nat ((min (endDateTime w) (endOfDay d) - max (startDateTime w) (startOfDay d))
                                 div (dur * 60000))]))
                  (filter (intersectsDay (startOfDay d) (endOfDay d)) availability))"
proof -
  let ?g = "\<lambda>w. list_ex (slotIsFree bookings busyTimes dur)
                  (map (\<lambda>i. addMinutes (max (startDateTime w) (startOfDay d)) (int i * dur))
                     [0..<nat ((min (endDateTime w) (endOfDay d) - max (startDateTime w) (startOfDay d))
                                 div (dur * 60000))])"
  let ?ws = "filter (intersectsDay (startOfDay d) (endOfDay d)) availability"
  have "someE (windowHasFreeSlot bookings busyTimes dur (startOfDay d) (endOfDay d)) ?ws
          = Inr (list_ex ?g ?ws)"
    by (rule someE_total) (rule windowHasFreeSlot_pos [OF assms])
  then show ?thesis
    by (simp add: dayIsAvailable_def Let_def checkDayHasAvailableSlot_def)
qed

lemma spanned_day_available:
  assumes dur: "0 < dur" "dur \<le> 1439"
    and w: "w \<in> set availability"
    and span: "startDateTime w \<le> startOfDay d" "endOfDay d \<le> endDateTime w"
  shows "dayIsAvailable availability [] dur [] d = Inr True"
proof -
  let ?s = "max (startDateTime w) (startOfDay d)"
  let ?e = "min (endDateTime w) (endOfDay d)"
  let ?cs = "map (\<lambda>i. addMinutes ?s (int i * dur)) [0..<nat ((?e - ?s) div (dur * 60000))]"
  have range: "?e - ?s = msPerDay - 1"
    using span day_length [of d] by (simp add: max_def min_def)
  have "dur * 60000 \<le> msPerDay - 1"
    using dur by (simp add: msPerDay_def)
  moreover have "0 < dur * 60000" using dur(1) by simp
  ultimately have "0 < (msPerDay - 1) div (dur * 60000)"
    by (simp only: pos_imp_zdiv_pos_iff)
  then have "0 < nat ((?e - ?s) div (dur * 60000))"
    unfolding range by simp
  then have "?cs \<noteq> []" by simp
  moreover have "\<And>c. slotIsFree [] [] dur c"
    by (simp add: slotIsFree_def)
  ultimately have "list_ex (slotIsFree [] [] dur) ?cs"
    by (cases ?cs) simp_all
  moreover have "w \<in> set (filter (intersectsDay (startOfDay d) (endOfDay d)) availability)"
    using w span by (simp add: intersectsDay_def Let_def)
  ultimately show ?thesis
    unfolding dayIsAvailable_pos [OF dur(1)] list_ex_iff [of _ "filter _ _"] by blast
qed

lemma ceil_days_bounds:
  assumes "86400000 < (a::int)" and "a < 259200000"
  shows "2 \<le> ceilDiv a msPerDay" and "ceilDiv a msPerDay \<le> 3"
  using assms unfolding ceilDiv_def msPerDay_def by simp_all


lemma dayIsAvailable_pos_total:
  "0 < dur \<Longrightarrow> \<exists>b. dayIsAvailable availability bookings dur busyTimes d = Inr b"
  by (simp add: dayIsAvailable_pos)

lemma available_day_is_returned:
  assumes dur: "0 < dur"
    and d: "d = addDays (startOfDay startDate) (int i)"
    and i: "int i < ceilDiv (roundDouble (endDate - startDate)) msPerDay + 1"
    and n: "ceilDiv (roundDouble (endDate - startDate)) msPerDay + 1 \<le> maxArrayLength"
    and keep: "startOfDay (shd clk) \<le> d" "d \<le> endDate"
    and av: "dayIsAvailable availability bookings dur busyTimes d = Inr True"
  shows "\<exists>labels. fst (computeAvailableDates fmt availability bookings startDate endDate dur
                          busyTimes clk) = Inr labels \<and> fmt d \<in> set labels"
proof -
  let ?n = "ceilDiv (roundDouble (endDate - startDate)) msPerDay + 1"
  let ?mk = "\<lambda>i. addDays (startOfDay startDate) (int i)"
  let ?keep = "\<lambda>currentDate. currentDate \<ge> startOfDay (shd clk) \<and> currentDate \<le> endDate"
  let ?days = "map ?mk [0..<nat ?n]"
  have days: "arrayFrom (Finite ?n) ?mk = Inr ?days"
    using n by simp
  obtain kept where kept:
    "filterE (dayIsAvailable availability bookings dur busyTimes) (filter ?keep ?days) = Inr kept"
    using filterE_total [of "filter ?keep ?days" "dayIsAvailable availability bookings dur busyTimes"]
      dayIsAvailable_pos_total [OF dur]
    by blast
  have "i < nat ?n" using i by simp
  then have "d \<in> set ?days" unfolding d by simp
  with keep have "d \<in> set (filter ?keep ?days)" by simp
  with av filterE_Inr [OF kept] have "d \<in> set kept" by simp
  then have "fmt d \<in> set (map fmt kept)" by simp
  moreover have "fst (computeAvailableDates fmt availability bookings startDate endDate dur
                        busyTimes clk) = Inr (map fmt kept)"
    unfolding computeAvailableDates_unfold days using kept by simp
  ultimately show ?thesis by blast
qed

text \<open>
  The windows examined for a day are those that start within the day, end within the day, or
  span it; a day with no such window is not available.
\<close>

lemma dayIsAvailable_selects:
  "dayIsAvailable availability bookings dur busyTimes d =
     (if \<exists>a\<in>set availability.
           (startOfDay d \<le> startDateTime a \<and> startDateTime a \<le> endOfDay d) \<or>
           (startOfDay d \<le> endDateTime a \<and> endDateTime a \<le> endOfDay d) \<or>
           (startDateTime a \<le> startOfDay d \<and> endOfDay d \<le> endDateTime a)
      then checkDayHasAvailableSlot
             (filter (\<lambda>a. (startOfDay d \<le> startDateTime a \<and> startDateTime a \<le> endOfDay d) \<or>
                          (startOfDay d \<le> endDateTime a \<and> endDateTime a \<le> endOfDay d) \<or>
                          (startDateTime a \<le> startOfDay d \<and> endOfDay d \<le> endDateTime a))
                availability)
             bookings (startOfDay d) (endOfDay d) dur busyTimes
      else Inr False)"
proof -
  have sel: "intersectsDay (startOfDay d) (endOfDay d) =
      (\<lambda>a. (startOfDay d \<le> startDateTime a \<and> startDateTime a \<le> endOfDay d) \<or>
           (startOfDay d \<le> endDateTime a \<and> endDateTime a \<le> endOfDay d) \<or>
           (startDateTime a \<le> startOfDay d \<and> endOfDay d \<le> endDateTime a))"
    by (rule ext) (simp add: intersectsDay_def Let_def isWithinInterval_def)
  let ?P = "\<lambda>a. (startOfDay d \<le> startDateTime a \<and> startDateTime a \<le> endOfDay d) \<or>
           (startOfDay d \<le> endDateTime a \<and> endDateTime a \<le> endOfDay d) \<or>
           (startDateTime a \<le> startOfDay d \<and> endOfDay d \<le> endDateTime a)"
  have unfolded: "dayIsAvailable availability bookings dur busyTimes d =
      (if filter ?P availability = [] then Inr False
       else checkDayHasAvailableSlot (filter ?P availability) bookings (startOfDay d) (endOfDay d)
              dur busyTimes)"
    unfolding dayIsAvailable_def Let_def sel ..
  show ?thesis
  proof (cases "\<exists>a\<in>set availability. ?P a")
    case True
    then have "filter ?P availability \<noteq> []"
      unfolding filter_empty_conv by blast
    with True show ?thesis
      unfolding unfolded by (simp only: if_True if_False)
  next
    case False
    then have "filter ?P availability = []"
      unfolding filter_empty_conv by blast
    with False show ?thesis
      unfolding unfolded by (simp only: if_True if_False simp_thms)
  qed
qed

text \<open>
  C7. A day has availability windows iff some window starts within the day, or ends within
  the day, or spans it (start at or before the start of the day and end at or after its
  end): the day check examines exactly these windows and answers false when there is none,
  so every day returned by \<open>computeAvailableDates\<close> has such a window. In particular, for a
  window from 08:00 of day 1 to 08:00 of day 3, no bookings and no busy intervals, a query
  range from day 1 to day 3, a duration of at most 1439 minutes (the default is 30) and a
  clock not past day 2, \<open>computeAvailableDates\<close> returns the label of day 2, on which no
  window starts or ends.
\<close>

theorem fully_spanned_day_is_available:
  "dayIsAvailable availability bookings dur busyTimes d =
     (if \<exists>a\<in>set availability.
           (startOfDay d \<le> startDateTime a \<and> startDateTime a \<le> endOfDay d) \<or>
           (startOfDay d \<le> endDateTime a \<and> endDateTime a \<le> endOfDay d) \<or>
           (startDateTime a \<le> startOfDay d \<and> endOfDay d \<le> endDateTime a)
      then checkDayHasAvailableSlot
             (filter (\<lambda>a. (startOfDay d \<le> startDateTime a \<and> startDateTime a \<le> endOfDay d) \<or>
                          (startOfDay d \<le> endDateTime a \<and> endDateTime a \<le> endOfDay d) \<or>
                          (startDateTime a \<le> startOfDay d \<and> endOfDay d \<le> endDateTime a))
                availability)
             bookings (startOfDay d) (endOfDay d) dur busyTimes
      else Inr False) \<and>
   (fst (computeAvailableDates fmt availability bookings startDate endDate dur busyTimes clk)
      = Inr labels \<longrightarrow>
    (\<forall>l\<in>set labels. \<exists>day. l = fmt day \<and> startOfDay day = day \<and>
       (\<exists>a\<in>set availability.
          (day \<le> startDateTime a \<and> startDateTime a \<le> endOfDay day) \<or>
          (day \<le> endDateTime a \<and> endDateTime a \<le> endOfDay day) \<or>
          (startDateTime a \<le> day \<and> endOfDay day \<le> endDateTime a)))) \<and>
   (startOfDay day1 = day1 \<and> startOfDay startDate = day1 \<and>
    addDays day1 2 \<le> endDate \<and> endDate < addDays day1 3 \<and>
    startOfDay (fst (newDate clk)) \<le> addDays day1 1 \<and>
    0 < dur \<and> dur \<le> 1439 \<and>
    w \<in> set availability \<and>
    startDateTime w = addMinutes day1 480 \<and>
    endDateTime w = addMinutes (addDays day1 2) 480 \<longrightarrow>
    (\<exists>labels. fst (computeAvailableDates fmt availability [] startDate endDate dur [] clk)
                 = Inr labels \<and>
              fmt (addDays day1 1) \<in> set labels))"
proof (intro conjI impI ballI)
  show "dayIsAvailable availability bookings dur busyTimes d =
     (if \<exists>a\<in>set availability.
           (startOfDay d \<le> startDateTime a \<and> startDateTime a \<le> endOfDay d) \<or>
           (startOfDay d \<le> endDateTime a \<and> endDateTime a \<le> endOfDay d) \<or>
           (startDateTime a \<le> startOfDay d \<and> endOfDay d \<le> endDateTime a)
      then checkDayHasAvailableSlot
             (filter (\<lambda>a. (startOfDay d \<le> startDateTime a \<and> startDateTime a \<le> endOfDay d) \<or>
                          (startOfDay d \<le> endDateTime a \<and> endDateTime a \<le> endOfDay d) \<or>
                          (startDateTime a \<le> startOfDay d \<and> endOfDay d \<le> endDateTime a))
                availability)
             bookings (startOfDay d) (endOfDay d) dur busyTimes
      else Inr False)"
    by (rule dayIsAvailable_selects)
next
  fix l
  assume res: "fst (computeAvailableDates fmt availability bookings startDate endDate dur
                      busyTimes clk) = Inr labels"
    and l: "l \<in> set labels"
  from available_days_are_day_starts [OF res] l
  obtain day where day: "l = fmt day" "startOfDay day = day"
    and av: "dayIsAvailable availability bookings dur busyTimes day = Inr True"
    by auto
  have "\<exists>a\<in>set availability.
          (startOfDay day \<le> startDateTime a \<and> startDateTime a \<le> endOfDay day) \<or>
          (startOfDay day \<le> endDateTime a \<and> endDateTime a \<le> endOfDay day) \<or>
          (startDateTime a \<le> startOfDay day \<and> endOfDay day \<le> endDateTime a)"
  proof (rule ccontr)
    assume "\<not> ?thesis"
    then have "dayIsAvailable availability bookings dur busyTimes day = Inr False"
      by (simp only: dayIsAvailable_selects if_False)
    with av show False by simp
  qed
  with day show "\<exists>day. l = fmt day \<and> startOfDay day = day \<and>
       (\<exists>a\<in>set availability.
          (day \<le> startDateTime a \<and> startDateTime a \<le> endOfDay day) \<or>
          (day \<le> endDateTime a \<and> endDateTime a \<le> endOfDay day) \<or>
          (startDateTime a \<le> day \<and> endOfDay day \<le> endDateTime a))"
    by auto
next
  assume h: "startOfDay day1 = day1 \<and> startOfDay startDate = day1 \<and>
    addDays day1 2 \<le> endDate \<and> endDate < addDays day1 3 \<and>
    startOfDay (fst (newDate clk)) \<le> addDays day1 1 \<and>
    0 < dur \<and> dur \<le> 1439 \<and>
    w \<in> set availability \<and>
    startDateTime w = addMinutes day1 480 \<and>
    endDateTime w = addMinutes (addDays day1 2) 480"
  let ?d2 = "addDays day1 1"
  from h have sd: "startOfDay startDate = day1" by simp
  have lo: "day1 \<le> startDate" using startOfDay_le [of startDate] sd by simp
  have hi: "startDate < day1 + msPerDay" using startOfDay_gt [of startDate] sd by simp
  from h have e_lo: "day1 + 2 * msPerDay \<le> endDate" and e_hi: "endDate < day1 + 3 * msPerDay"
    by (simp_all add: addDays_def)
  have range: "86400000 < endDate - startDate" "endDate - startDate < 259200000"
    using lo hi e_lo e_hi by (simp_all add: msPerDay_def)
  then have exact: "roundDouble (endDate - startDate) = endDate - startDate"
    by (intro roundDouble_exact) simp
  from ceil_days_bounds [OF range]
  have n_lo: "2 \<le> ceilDiv (roundDouble (endDate - startDate)) msPerDay"
    and n_hi: "ceilDiv (roundDouble (endDate - startDate)) msPerDay \<le> 3"
    unfolding exact by simp_all
  have d2: "?d2 = addDays (startOfDay startDate) (int 1)" unfolding sd by simp
  have i: "int 1 < ceilDiv (roundDouble (endDate - startDate)) msPerDay + 1" using n_lo by simp
  have n: "ceilDiv (roundDouble (endDate - startDate)) msPerDay + 1 \<le> maxArrayLength"
    using n_hi by (simp add: maxArrayLength_def)
  have today: "startOfDay (shd clk) \<le> ?d2" using h by (simp add: newDate_def)
  have before_end: "?d2 \<le> endDate"
    using e_lo msPerDay_pos by (simp add: addDays_def)
  have day_start: "startOfDay ?d2 = ?d2"
    using startOfDay_addDays [of day1 1] h by simp
  have span1: "startDateTime w \<le> startOfDay ?d2"
    unfolding day_start using h by (simp add: addMinutes_def addDays_def msPerDay_def)
  have span2: "endOfDay ?d2 \<le> endDateTime w"
    unfolding endOfDay_def day_start using h
    by (simp add: addMinutes_def addDays_def msPerDay_def)
  from h have dur: "0 < dur" "dur \<le> 1439" and w: "w \<in> set availability" by simp_all
  have av: "dayIsAvailable availability [] dur [] ?d2 = Inr True"
    using dur w span1 span2 by (rule spanned_day_available)
  from available_day_is_returned [OF dur(1) d2 i n today before_end av]
  show "\<exists>labels. fst (computeAvailableDates fmt availability [] startDate endDate dur [] clk)
                 = Inr labels \<and>
              fmt (addDays day1 1) \<in> set labels" .
qed

text \<open>
  The window 08:00 of day 1 to 08:00 of day 3 makes all three days available; with no window
  at all no day is returned.
\<close>

theorem fully_spanned_day_is_available_witness:
  "startOfDay 0 = 0 \<and> addDays 0 2 \<le> 172800000 \<and> 172800000 < addDays 0 3 \<and>
   startOfDay (fst (newDate (sconst 0))) \<le> addDays 0 1 \<and> (0::int) < 30 \<and> (30::int) \<le> 1439 \<and>
   fst (computeAvailableDates formatYMD
          [\<lparr>key = ''w'', startDateTime = 28800000, endDateTime = 201600000\<rparr>]
          [] 0 172800000 30 [] (sconst 0)) =
     Inr [''1970-01-01'', ''1970-01-02'', ''1970-01-03''] \<and>
   formatYMD (addDays 0 1) = ''1970-01-02'' \<and>
   dayIsAvailable [] [] 30 [] 86400000 = Inr False \<and>
   fst (computeAvailableDates formatYMD [] [] 0 172800000 30 [] (sconst 0)) = Inr []"
proof -
  let ?w = "\<lparr>key = ''w'', startDateTime = 28800000, endDateTime = 201600000\<rparr>"
  have res: "fst (computeAvailableDates formatYMD [?w] [] 0 172800000 30 [] (sconst 0)) =
     Inr [''1970-01-01'', ''1970-01-02'', ''1970-01-03'']"
    by (simp add: eval_dates formatYMD_epoch formatYMD_day2 formatYMD_day3)
  have none: "fst (computeAvailableDates formatYMD [] [] 0 172800000 30 [] (sconst 0)) = Inr []"
    by (simp add: eval_dates)
  have h: "startOfDay 0 = 0 \<and> startOfDay 0 = 0 \<and>
    addDays 0 2 \<le> 172800000 \<and> 172800000 < addDays 0 3 \<and>
    startOfDay (fst (newDate (sconst 0))) \<le> addDays 0 1 \<and>
    (0::int) < 30 \<and> (30::int) \<le> 1439 \<and>
    ?w \<in> set [?w] \<and>
    startDateTime ?w = addMinutes 0 480 \<and>
    endDateTime ?w = addMinutes (addDays 0 2) 480"
    by (simp add: startOfDay_def addDays_def msPerDay_def newDate_def addMinutes_def)
  note inst = fully_spanned_day_is_available
    [of "[?w]" "[]" 30 "[]" 86400000 formatYMD 0 172800000 "sconst 0"
        "[''1970-01-01'', ''1970-01-02'', ''1970-01-03'']" 0 ?w]
  from inst h
  have "\<exists>labels. fst (computeAvailableDates formatYMD [?w] [] 0 172800000 30 [] (sconst 0))
                   = Inr labels \<and>
                 formatYMD (addDays 0 1) \<in> set labels"
    by blast
  with res have "formatYMD (addDays 0 1) \<in> set [''1970-01-01'', ''1970-01-02'', ''1970-01-03'']"
    by simp
  moreover have day2: "formatYMD (addDays 0 1) = ''1970-01-02''"
    by (simp add: addDays_def msPerDay_def formatYMD_day2)
  moreover from fully_spanned_day_is_available
    [of "[]" "[]" 30 "[]" 86400000 formatYMD 0 172800000 "sconst 0" "[]" 0 ?w]
  have "dayIsAvailable [] [] 30 [] 86400000 = Inr False"
    by simp
  ultimately show ?thesis using res none h by simp
qed

text \<open>
  With a positive duration \<open>computeAvailableDates\<close> returns a list of labels whenever the
  number of days of the range is an array length.
\<close>

lemma computeAvailableDates_pos_total:
  assumes "0 < dur"
    and "ceilDiv (roundDouble (endDate - startDate)) msPerDay + 1 \<le> maxArrayLength"
  shows "\<exists>labels. fst (computeAvailableDates fmt availability bookings startDate endDate dur
                          busyTimes clk) = Inr labels"
proof -
  let ?xs = "filter (\<lambda>currentDate. currentDate \<ge> startOfDay (shd clk) \<and> currentDate \<le> endDate)
               (map (\<lambda>i. addDays (startOfDay startDate) (int i))
                  [0..<nat (ceilDiv (roundDouble (endDate - startDate)) msPerDay + 1)])"
  obtain kept where
    "filterE (dayIsAvailable availability bookings dur busyTimes) ?xs = Inr kept"
    using filterE_total [of ?xs "dayIsAvailable availability bookings dur busyTimes"]
      dayIsAvailable_pos_total [OF assms(1)]
    by blast
  then show ?thesis
    using assms(2) by (simp add: computeAvailableDates_unfold)
qed

section \<open>Agreement of the two aggregators\<close>

text \<open>
  For a positive duration and a day that has not started yet when the clock is read, the
  day existence check and the emptiness of the slot list agree: no candidate of the day is
  in the past.
\<close>

lemma aggregators_agree_on_later_days:
  assumes dur: "0 < dur"
    and later: "shd clk \<le> startOfDay date"
    and res: "fst (computeAvailableSlots availability bookings date dur busyTimes clk) = Inr slots"
  shows "dayIsAvailable availability bookings dur busyTimes date = Inr (slots \<noteq> [])"
proof -
  let ?s = "\<lambda>w. max (startDateTime w) (startOfDay date)"
  let ?e = "\<lambda>w. min (endDateTime w) (endOfDay date)"
  let ?cs = "\<lambda>w. map (\<lambda>i. addMinutes (?s w) (int i * dur))
                    [0..<nat ((?e w - ?s w) div (dur * 60000))]"
  let ?ws = "filter (intersectsDay (startOfDay date) (endOfDay date)) availability"
  have gen: "\<And>w. generateSlotStarts (?s w) (?e w) dur = Inr (?cs w)"
    using dur by (rule generateSlotStarts_clipped)
  have "list_ex (\<lambda>w. list_ex (slotIsFree bookings busyTimes dur) (?cs w)) ?ws \<longleftrightarrow> slots \<noteq> []"
  proof
    assume "list_ex (\<lambda>w. list_ex (slotIsFree bookings busyTimes dur) (?cs w)) ?ws"
    then obtain w c where w: "w \<in> set availability"
      "intersectsDay (startOfDay date) (endOfDay date) w"
      and c: "c \<in> set (?cs w)" and free: "slotIsFree bookings busyTimes dur c"
      unfolding list_ex_iff by auto
    from window_candidates_bounds [OF _ gen c] dur have "startOfDay date \<le> c" by simp
    with later have "shd clk \<le> c" by simp
    from computeAvailableSlots_includes [OF res w gen c this free]
    show "slots \<noteq> []" by auto
  next
    assume "slots \<noteq> []"
    then obtain s where "s \<in> set slots" by (cases slots) auto
    from computeAvailableSlots_member [OF res this]
    obtain w cs c where w: "w \<in> set availability"
      "intersectsDay (startOfDay date) (endOfDay date) w"
      and cs: "generateSlotStarts (?s w) (?e w) dur = Inr cs"
      and c: "c \<in> set cs" "slotIsFree bookings busyTimes dur c"
      by blast
    from cs gen [of w] have "cs = ?cs w" by simp
    with w c show "list_ex (\<lambda>w. list_ex (slotIsFree bookings busyTimes dur) (?cs w)) ?ws"
      unfolding list_ex_iff by auto
  qed
  then show ?thesis
    unfolding dayIsAvailable_pos [OF dur] by simp
qed

text \<open>
  C1. The specification asks that \<open>computeAvailableDates\<close> includes a day iff
  \<open>computeAvailableSlots\<close> for that day is not empty. The code does not do so at the input
  below: the only window of the day is
  09:00-12:00 and the clock shows 15:00 of the same day, so the day existence check, which
  does not look at the clock, finds the free candidate 09:00 and the day is returned, while
  every slot of the day is in the past and the slot list is empty.
\<close>

theorem today_with_only_past_slots:
  "fst (computeAvailableDates formatYMD
         [\<lparr>key = ''w'', startDateTime = 32400000, endDateTime = 43200000\<rparr>]
         [] 0 0 30 [] (sconst 54000000)) = Inr [''1970-01-01''] \<and>
   formatYMD 0 = ''1970-01-01'' \<and>
   fst (computeAvailableSlots
         [\<lparr>key = ''w'', startDateTime = 32400000, endDateTime = 43200000\<rparr>]
         [] 0 30 [] (sconst 54000000)) = Inr []"
proof (intro conjI)
  show "fst (computeAvailableDates formatYMD
         [\<lparr>key = ''w'', startDateTime = 32400000, endDateTime = 43200000\<rparr>]
         [] 0 0 30 [] (sconst 54000000)) = Inr [''1970-01-01'']"
    by (simp add: eval_dates formatYMD_epoch)
  show "formatYMD 0 = ''1970-01-01''"
    by (rule formatYMD_epoch)
  show "fst (computeAvailableSlots
         [\<lparr>key = ''w'', startDateTime = 32400000, endDateTime = 43200000\<rparr>]
         [] 0 30 [] (sconst 54000000)) = Inr []"
    by (simp add: eval_slots)
qed

end
